theory Spec2Isabelle
  imports Main "HOL-Library.Word"
begin

section \<open>The stack machine of sm.cpp\<close>

text \<open>
  The machine's only value type is \<open>int32_t\<close>, modelled as a 32-bit word that is
  read as two's complement by \<open>sint\<close>.  The byte streams \<open>fin\<close> and \<open>fout\<close>
  are lists of 8-bit characters.
\<close>

type_synonym int32_t = "32 word"

subsection \<open>The enumeration Op\<close>

datatype Op = NOP | ADD | SUB | AND | OR | XOR | NOT | IN | OUT | LOAD | STOR
  | JMP | JZ | PUSH | DUP

text \<open>The enumerator values, in declaration order starting at zero.\<close>

fun op_code :: "Op \<Rightarrow> int32_t" where
  "op_code NOP = 0"
| "op_code ADD = 1"
| "op_code SUB = 2"
| "op_code AND = 3"
| "op_code OR = 4"
| "op_code XOR = 5"
| "op_code NOT = 6"
| "op_code IN = 7"
| "op_code OUT = 8"
| "op_code LOAD = 9"
| "op_code STOR = 10"
| "op_code JMP = 11"
| "op_code JZ = 12"
| "op_code PUSH = 13"
| "op_code DUP = 14"

text \<open>
  \<open>static_cast<Op>(w)\<close>: the value is kept as it is; \<open>as_Op w\<close> is the enumerator
  that a \<open>case\<close> label of a \<open>switch\<close> can match, and \<open>None\<close> when \<open>w\<close> is the
  value of no enumerator.
\<close>

definition as_Op :: "int32_t \<Rightarrow> Op option" where
  "as_Op w =
     (if w = 0 then Some NOP else if w = 1 then Some ADD else if w = 2 then Some SUB
      else if w = 3 then Some AND else if w = 4 then Some OR else if w = 5 then Some XOR
      else if w = 6 then Some NOT else if w = 7 then Some IN else if w = 8 then Some OUT
      else if w = 9 then Some LOAD else if w = 10 then Some STOR
      else if w = 11 then Some JMP else if w = 12 then Some JZ
      else if w = 13 then Some PUSH else if w = 14 then Some DUP else None)"

text \<open>
  \<open>to_s\<close>: a \<open>switch\<close> whose \<open>default\<close> label stands on the \<open>NOP\<close> case.  The
  cases run from \<open>NOP\<close> to \<open>JZ\<close>; anything else reaches \<open>default\<close>.
\<close>

fun to_s :: "Op option \<Rightarrow> string" where
  "to_s (Some NOP) = ''NOP''"
| "to_s (Some ADD) = ''ADD''"
| "to_s (Some SUB) = ''SUB''"
| "to_s (Some AND) = ''AND''"
| "to_s (Some OR) = ''OR''"
| "to_s (Some XOR) = ''XOR''"
| "to_s (Some NOT) = ''NOT''"
| "to_s (Some IN) = ''IN''"
| "to_s (Some OUT) = ''OUT''"
| "to_s (Some LOAD) = ''LOAD''"
| "to_s (Some STOR) = ''STOR''"
| "to_s (Some JMP) = ''JMP''"
| "to_s (Some JZ) = ''JZ''"
| "to_s _ = ''NOP''"

text \<open>The enumerator's own identifier, to compare \<open>to_s\<close> with.\<close>

fun op_name :: "Op \<Rightarrow> string" where
  "op_name NOP = ''NOP''"
| "op_name ADD = ''ADD''"
| "op_name SUB = ''SUB''"
| "op_name AND = ''AND''"
| "op_name OR = ''OR''"
| "op_name XOR = ''XOR''"
| "op_name NOT = ''NOT''"
| "op_name IN = ''IN''"
| "op_name OUT = ''OUT''"
| "op_name LOAD = ''LOAD''"
| "op_name STOR = ''STOR''"
| "op_name JMP = ''JMP''"
| "op_name JZ = ''JZ''"
| "op_name PUSH = ''PUSH''"
| "op_name DUP = ''DUP''"

subsection \<open>The machine state\<close>

text \<open>
  A line written to \<open>stderr\<close>: the trace line of the main loop with the five values
  it formats (\<open>ip\<close>, the opcode's name, the stack size, \<open>a\<close>, \<open>b\<close>), or a plain message.
\<close>

datatype err_line = Trace int32_t string nat int32_t int32_t | Message string

text \<open>
  The global variables.  \<open>memory\<close> is the array \<open>int32_t memory[1024*1000]\<close>; its
  extent is \<open>CAPACITY\<close>, and every subscript is checked against it by \<open>in_memory\<close>
  where the model reads or writes an element.
\<close>

record machine =
  stack :: "int32_t list"
  memory :: "nat \<Rightarrow> int32_t"
  ip :: int32_t
  fin :: string
  fout :: string
  ferr :: "err_line list"

definition CAPACITY :: int where
  "CAPACITY = 1024 * 1000"

text \<open>What C++ leaves undefined and the program can reach.\<close>

datatype undefined_behaviour = PopEmpty | SubscriptOutOfRange | SignedOverflow

text \<open>
  The result of a piece of the program: it returns a value in a new state, or the process
  exits with a status (\<open>exit\<close>), or it reaches undefined behaviour.  The state carried by
  \<open>Undefined\<close> is the one in which the undefined operation was attempted.
\<close>

datatype 'a result = Ok 'a machine | Exit int machine | Undefined undefined_behaviour machine

fun bind_r :: "'a result \<Rightarrow> ('a \<Rightarrow> machine \<Rightarrow> 'b result) \<Rightarrow> 'b result" where
  "bind_r (Ok a m) f = f a m"
| "bind_r (Exit c m) f = Exit c m"
| "bind_r (Undefined u m) f = Undefined u m"

definition in_memory :: "int32_t \<Rightarrow> bool" where
  "in_memory i \<longleftrightarrow> 0 \<le> sint i \<and> sint i < CAPACITY"

definition idx :: "int32_t \<Rightarrow> nat" where
  "idx i = nat (sint i)"

text \<open>\<open>memory[i]\<close> as an rvalue.\<close>

definition mem_read :: "int32_t \<Rightarrow> machine \<Rightarrow> int32_t result" where
  "mem_read i m =
     (if in_memory i then Ok (memory m (idx i)) m else Undefined SubscriptOutOfRange m)"

text \<open>\<open>memory[i] = v\<close>.\<close>

definition mem_write :: "int32_t \<Rightarrow> int32_t \<Rightarrow> machine \<Rightarrow> unit result" where
  "mem_write i v m =
     (if in_memory i then Ok () (m\<lparr>memory := (memory m)(idx i := v)\<rparr>)
      else Undefined SubscriptOutOfRange m)"

subsection \<open>The helper functions\<close>

definition stop :: "string \<Rightarrow> int \<Rightarrow> machine \<Rightarrow> 'a result" where
  "stop s code m = Exit code (m\<lparr>ferr := ferr m @ [Message s]\<rparr>)"

definition push :: "int32_t \<Rightarrow> machine \<Rightarrow> machine" where
  "push n m = m\<lparr>stack := stack m @ [n]\<rparr>"

text \<open>\<open>stack.back()\<close> and \<open>stack.pop_back()\<close> are undefined on an empty vector.\<close>

definition pop :: "machine \<Rightarrow> int32_t result" where
  "pop m =
     (if stack m = [] then Undefined PopEmpty m
      else Ok (last (stack m)) (m\<lparr>stack := butlast (stack m)\<rparr>))"

text \<open>
  \<open>check_bounds\<close>: \<open>n >= 0 && n <= sizeof(memory)/sizeof(int32_t)\<close>.  The right operand
  is 1024000; for the non-negative \<open>n\<close> that reaches the second comparison its conversion
  to \<open>size_t\<close> keeps the value.
\<close>

definition bounds_ok :: "int32_t \<Rightarrow> bool" where
  "bounds_ok n \<longleftrightarrow> 0 \<le> sint n \<and> sint n \<le> CAPACITY"

definition check_bounds :: "int32_t \<Rightarrow> string \<Rightarrow> machine \<Rightarrow> unit result" where
  "check_bounds n msg m =
     (if bounds_ok n then Ok () m
      else Exit 1 (m\<lparr>ferr := ferr m @ [Message (msg @ '' out of bounds'')]\<rparr>))"

text \<open>
  \<open>next\<close>: \<open>ip += sizeof(int32_t)\<close>, then \<open>ip\<close> is compared with 1024000 as a
  \<open>size_t\<close>, where a negative \<open>ip\<close> would be a huge value: \<open>uint\<close> reads it so.
\<close>

definition next_sm :: "machine \<Rightarrow> machine" where
  "next_sm m = (let i = ip m + 4 in m\<lparr>ip := (if CAPACITY < uint i then 0 else i)\<rparr>)"

definition reset :: "machine \<Rightarrow> machine" where
  "reset m = m\<lparr>memory := (\<lambda>_. 0), ip := 0, stack := []\<rparr>"

text \<open>Both overloads of \<open>load\<close> store a word at \<open>ip\<close> and call \<open>next\<close>.\<close>

definition load :: "int32_t \<Rightarrow> machine \<Rightarrow> unit result" where
  "load n m = bind_r (mem_write (ip m) n m) (\<lambda>_ m1. Ok () (next_sm m1))"

definition init :: "machine \<Rightarrow> machine" where
  "init m = m\<lparr>ip := 0\<rparr>"

subsection \<open>The help text\<close>

text \<open>\<open>%x\<close> of \<open>printf\<close>: lower-case hexadecimal with no leading zero.\<close>

definition hex_digit :: "nat \<Rightarrow> char" where
  "hex_digit d = ''0123456789abcdef'' ! d"

fun hex :: "nat \<Rightarrow> string" where
  "hex n = (if n < 16 then [hex_digit n] else hex (n div 16) @ [hex_digit (n mod 16)])"

text \<open>
  One pass of the \<open>do\<close> loop of \<open>help\<close>, which runs \<open>op\<close> from \<open>NOP\<close> up to \<open>DUP\<close>.
\<close>

definition help_row :: "nat \<Rightarrow> string" where
  "help_row n = ''0x'' @ hex n @ '' = '' @ to_s (as_Op (of_nat n)) @ [CHR 0x0A]"

definition help_text :: string where
  "help_text =
     concat (map help_row [0..<15])
     @ ''To halt program, jump to current position:'' @ [CHR 0x0A, CHR 0x0A]
     @ ''0x0 PUSH 0x'' @ hex 4 @ [CHR 0x0A]
     @ ''0x'' @ hex 4 @ '' JMP'' @ [CHR 0x0A, CHR 0x0A]
     @ ''Word size is 4 bytes'' @ [CHR 0x0A]"

definition help_sm :: "machine \<Rightarrow> 'a result" where
  "help_sm m = Exit 0 (m\<lparr>fout := fout m @ help_text\<rparr>)"

subsection \<open>The input and output ports\<close>

text \<open>
  Modelled from the spec: the macro \<open>EOF\<close> of the C library, which the source does not
  define; the reference value is -1.
\<close>

definition EOF :: int32_t where
  "EOF = - 1"

text \<open>
  \<open>getc(fin)\<close>: the next byte as an \<open>unsigned char\<close> converted to \<open>int\<close>, or \<open>EOF\<close>
  at the end of the stream.
\<close>

definition getc :: "machine \<Rightarrow> int32_t \<times> machine" where
  "getc m = (case fin m of [] \<Rightarrow> (EOF, m) | c # cs \<Rightarrow> (of_char c, m\<lparr>fin := cs\<rparr>))"

text \<open>\<open>putc(c, fout)\<close> writes \<open>c\<close> converted to \<open>unsigned char\<close>.\<close>

definition putc :: "int32_t \<Rightarrow> machine \<Rightarrow> machine" where
  "putc c m = m\<lparr>fout := fout m @ [char_of (uint c)]\<rparr>"

subsection \<open>One pass of the main loop\<close>

text \<open>
  \<open>a + b\<close> and \<open>a - b\<close> on \<open>int32_t\<close> are undefined when the mathematical result does
  not fit.
\<close>

definition fits :: "int \<Rightarrow> bool" where
  "fits i \<longleftrightarrow> - (2 ^ 31) \<le> i \<and> i < 2 ^ 31"

definition add32 :: "int32_t \<Rightarrow> int32_t \<Rightarrow> machine \<Rightarrow> int32_t result" where
  "add32 x y m = (if fits (sint x + sint y) then Ok (x + y) m else Undefined SignedOverflow m)"

definition sub32 :: "int32_t \<Rightarrow> int32_t \<Rightarrow> machine \<Rightarrow> int32_t result" where
  "sub32 x y m = (if fits (sint x - sint y) then Ok (x - y) m else Undefined SignedOverflow m)"

text \<open>The line printed to \<open>stderr\<close> before the \<open>switch\<close>.\<close>

definition trace :: "int32_t \<Rightarrow> machine \<Rightarrow> machine" where
  "trace w m =
     (let a = (if length (stack m) > 1 then stack m ! (length (stack m) - 1) else 0);
          b = (if length (stack m) > 2 then stack m ! (length (stack m) - 1) else 0)
      in m\<lparr>ferr := ferr m @ [Trace (ip m) (to_s (as_Op w)) (length (stack m)) a b]\<rparr>)"

text \<open>
  The \<open>switch\<close>.  It has no \<open>default\<close>: for a value that is no enumerator no case runs
  and the loop goes round with the state as it is.  In \<open>pop() + pop()\<close> and its like the
  order of the two calls is not fixed by the language; both calls come before the operation,
  which is commutative, so either order gives the result written here.
\<close>

fun exec :: "Op option \<Rightarrow> machine \<Rightarrow> unit result" where
  "exec None m = Ok () m"
| "exec (Some NOP) m = Ok () (next_sm m)"
| "exec (Some ADD) m =
     bind_r (pop m) (\<lambda>x m1. bind_r (pop m1) (\<lambda>y m2.
       bind_r (add32 x y m2) (\<lambda>r m3. Ok () (next_sm (push r m3)))))"
| "exec (Some SUB) m =
     bind_r (pop m) (\<lambda>a m1. bind_r (pop m1) (\<lambda>b m2.
       bind_r (sub32 a b m2) (\<lambda>r m3. Ok () (next_sm (push r m3)))))"
| "exec (Some AND) m =
     bind_r (pop m) (\<lambda>x m1. bind_r (pop m1) (\<lambda>y m2.
       Ok () (next_sm (push (and x y) m2))))"
| "exec (Some OR) m =
     bind_r (pop m) (\<lambda>x m1. bind_r (pop m1) (\<lambda>y m2.
       Ok () (next_sm (push (or x y) m2))))"
| "exec (Some XOR) m =
     bind_r (pop m) (\<lambda>x m1. bind_r (pop m1) (\<lambda>y m2.
       Ok () (next_sm (push (xor x y) m2))))"
| "exec (Some NOT) m =
     bind_r (pop m) (\<lambda>x m1. Ok () (next_sm (push (if x = 0 then 1 else 0) m1)))"
| "exec (Some IN) m = (case getc m of (c, m1) \<Rightarrow> Ok () (next_sm (push c m1)))"
| "exec (Some OUT) m = bind_r (pop m) (\<lambda>c m1. Ok () (next_sm (putc c m1)))"
| "exec (Some LOAD) m =
     bind_r (pop m) (\<lambda>a m1. bind_r (check_bounds a ''LOAD'' m1) (\<lambda>_ m2.
       bind_r (mem_read a m2) (\<lambda>v m3. Ok () (next_sm (push v m3)))))"
| "exec (Some STOR) m =
     bind_r (pop m) (\<lambda>a m1. bind_r (pop m1) (\<lambda>b m2.
       bind_r (check_bounds a ''STOR'' m2) (\<lambda>_ m3.
         bind_r (mem_write a b m3) (\<lambda>_ m4. Ok () (next_sm m4)))))"
| "exec (Some JMP) m =
     bind_r (pop m) (\<lambda>a m1. bind_r (check_bounds a ''JMP'' m1) (\<lambda>_ m2.
       if a = ip m2 then stop ''HALT'' 0 m2 else Ok () (m2\<lparr>ip := a\<rparr>)))"
| "exec (Some JZ) m =
     bind_r (pop m) (\<lambda>a m1.
       if a \<noteq> 0 then Ok () (next_sm m1)
       else bind_r (check_bounds a ''JZ'' m1) (\<lambda>_ m2. Ok () (m2\<lparr>ip := a\<rparr>)))"
| "exec (Some PUSH) m =
     (let m1 = next_sm m in
      bind_r (mem_read (ip m1) m1) (\<lambda>a m2. Ok () (next_sm (push a m2))))"
| "exec (Some DUP) m =
     bind_r (pop m) (\<lambda>a m1. Ok () (next_sm (push a (push a m1))))"

text \<open>
  One iteration: fetch \<open>memory[ip]\<close>, print the trace line, run the \<open>switch\<close>.
\<close>

definition step :: "machine \<Rightarrow> unit result" where
  "step m = bind_r (mem_read (ip m) m) (\<lambda>w m1. exec (as_Op w) (trace w m1))"

text \<open>
  The loop \<open>for (;;)\<close>, with fuel: \<open>None\<close> when the fuel runs out before the process
  has exited or reached undefined behaviour.
\<close>

fun run :: "nat \<Rightarrow> machine \<Rightarrow> unit result option" where
  "run 0 m = None"
| "run (Suc n) m =
     (case step m of
        Ok _ m1 \<Rightarrow> run n m1
      | Exit c m1 \<Rightarrow> Some (Exit c m1)
      | Undefined u m1 \<Rightarrow> Some (Undefined u m1))"

subsection \<open>The function main\<close>

text \<open>The first character of a C string; the terminating NUL when it is empty.\<close>

definition first_char :: "string \<Rightarrow> char" where
  "first_char s = (case s of [] \<Rightarrow> CHR 0x00 | c # _ \<Rightarrow> c)"

fun scan_args :: "string list \<Rightarrow> machine \<Rightarrow> unit result" where
  "scan_args [] m = Ok () m"
| "scan_args (arg # args) m =
     (if first_char arg = CHR ''-'' then help_sm m else scan_args args m)"

fun load_all :: "int32_t list \<Rightarrow> machine \<Rightarrow> unit result" where
  "load_all [] m = Ok () m"
| "load_all (w # ws) m = bind_r (load w m) (\<lambda>_ m1. load_all ws m1)"

definition message_words :: "int32_t list" where
  "message_words =
     [op_code PUSH, of_char CHR ''H'', op_code OUT,
      op_code PUSH, of_char CHR ''e'', op_code OUT,
      op_code PUSH, of_char CHR ''l'', op_code DUP, op_code OUT, op_code OUT,
      op_code PUSH, of_char CHR ''o'', op_code OUT,
      op_code PUSH, of_char CHR '' '', op_code OUT,
      op_code PUSH, of_char CHR ''w'', op_code OUT,
      op_code PUSH, of_char CHR ''o'', op_code OUT,
      op_code PUSH, of_char CHR ''r'', op_code OUT,
      op_code PUSH, of_char CHR ''l'', op_code OUT,
      op_code PUSH, of_char CHR ''d'', op_code OUT,
      op_code PUSH, of_char CHR ''!'', op_code OUT,
      op_code PUSH, of_char (CHR 0x0A), op_code OUT]"

text \<open>
  The calls of \<open>load\<close> in \<open>main\<close>: the message, then the halting jump, whose operand
  \<open>ip + sizeof(int32_t)\<close> is computed where \<open>ip\<close> stands on the operand's own cell.
\<close>

definition load_program :: "machine \<Rightarrow> unit result" where
  "load_program m =
     bind_r (load_all message_words m) (\<lambda>_ m1.
       bind_r (load (op_code PUSH) m1) (\<lambda>_ m2.
         bind_r (load (ip m2 + 4) m2) (\<lambda>_ m3. load (op_code JMP) m3)))"

text \<open>The globals as the process starts, with the bytes waiting on standard input.\<close>

definition startup :: "string \<Rightarrow> machine" where
  "startup inp = \<lparr>stack = [], memory = (\<lambda>_. 0), ip = 0, fin = inp, fout = [], ferr = []\<rparr>"

text \<open>\<open>argv\<close> holds the program's name first, as \<open>main\<close> receives it.\<close>

definition main_sm :: "nat \<Rightarrow> string list \<Rightarrow> string \<Rightarrow> unit result option" where
  "main_sm fuel argv inp =
     (case bind_r (scan_args (drop 1 argv) (startup inp)) (\<lambda>_ m. load_program (reset m)) of
        Ok _ m \<Rightarrow> run fuel (init m)
      | Exit c m \<Rightarrow> Some (Exit c m)
      | Undefined u m \<Rightarrow> Some (Undefined u m))"

subsection \<open>Notions used to state the properties\<close>

text \<open>
  A self-jump: the cell at \<open>ip\<close> holds \<open>JMP\<close> and the word on top of the stack is
  \<open>ip\<close> itself.
\<close>

definition self_jump :: "machine \<Rightarrow> bool" where
  "self_jump m \<longleftrightarrow>
     in_memory (ip m) \<and> as_Op (memory m (idx (ip m))) = Some JMP \<and>
     stack m \<noteq> [] \<and> last (stack m) = ip m"

text \<open>How many times the case of an opcode calls \<open>pop\<close>.\<close>

fun pops :: "Op \<Rightarrow> nat" where
  "pops NOP = 0"
| "pops ADD = 2"
| "pops SUB = 2"
| "pops AND = 2"
| "pops OR = 2"
| "pops XOR = 2"
| "pops NOT = 1"
| "pops IN = 0"
| "pops OUT = 1"
| "pops LOAD = 1"
| "pops STOR = 2"
| "pops JMP = 1"
| "pops JZ = 1"
| "pops PUSH = 0"
| "pops DUP = 1"

section \<open>Basic facts\<close>

subsection \<open>Opcodes\<close>

lemma as_Op_op_code: "as_Op (op_code c) = Some c"
  by (cases c) (simp_all add: as_Op_def)

lemma as_Op_Some: "as_Op w = Some c \<Longrightarrow> w = op_code c"
  by (auto simp: as_Op_def split: if_splits)

lemma as_Op_None_iff: "as_Op w = None \<longleftrightarrow> w \<notin> range op_code"
proof
  assume n: "as_Op w = None"
  show "w \<notin> range op_code"
  proof
    assume "w \<in> range op_code"
    then obtain c where "w = op_code c" by blast
    with n show False by (simp add: as_Op_op_code)
  qed
next
  assume r: "w \<notin> range op_code"
  show "as_Op w = None"
  proof (cases "as_Op w")
    case None then show ?thesis .
  next
    case (Some c)
    then have "w = op_code c" by (rule as_Op_Some)
    with r show ?thesis by blast
  qed
qed

subsection \<open>Signed and unsigned readings of a word\<close>

lemma sint_cases32:
  fixes i :: int32_t
  shows "(uint i < 2147483648 \<and> sint i = uint i) \<or> (2147483648 \<le> uint i \<and> sint i < 0)"
proof (cases "uint i < 2147483648")
  case True
  have "signed_take_bit 31 (uint i) = uint i"
  proof (rule signed_take_bit_int_eq_self)
    show "- (2 ^ 31) \<le> uint i" by (rule order_trans [of _ 0]) simp_all
    show "uint i < 2 ^ 31" using True by simp
  qed
  then have "sint i = uint i"
    by (simp add: sint_uint)
  with True show ?thesis by simp
next
  case False
  have lt: "uint i < 4294967296" using uint_lt2p [of i] by simp
  have "signed_take_bit 31 (uint i) \<le> uint i - 2 ^ Suc 31"
    by (rule signed_take_bit_int_less_eq) (use False in simp)
  then have "sint i \<le> uint i - 4294967296"
    by (simp add: sint_uint)
  with lt False show ?thesis by simp
qed

lemma size_t_compare:
  fixes i :: int32_t
  shows "CAPACITY < uint i \<longleftrightarrow> sint i < 0 \<or> CAPACITY < sint i"
  using sint_cases32 [of i] by (auto simp: CAPACITY_def)

lemma sint_plus4:
  fixes i :: int32_t
  assumes "0 \<le> sint i" and "sint i \<le> CAPACITY"
  shows "sint (i + 4) = sint i + 4"
proof -
  from assms sint_cases32 [of i] have u: "uint i = sint i" by auto
  with assms have "uint i + uint (4 :: int32_t) < 2 ^ 32" by (simp add: CAPACITY_def)
  then have u4: "uint (i + 4) = uint i + 4"
    using uint_add_lem [of i 4] by simp
  with u assms have "uint (i + 4) < 2147483648" by (simp add: CAPACITY_def)
  with sint_cases32 [of "i + 4"] have "sint (i + 4) = uint (i + 4)" by auto
  with u4 u show ?thesis by simp
qed

lemma sint_of_char: "sint (of_char c :: int32_t) = of_char c"
proof -
  have lt: "(of_char c :: nat) < 256" by simp
  have "(of_char c :: nat) < 4294967296"
    by (rule less_trans [OF lt]) simp
  then have md: "(of_char c :: nat) mod 4294967296 = of_char c"
    by (rule mod_less)
  have "unat (of_nat (of_char c) :: int32_t) = of_char c mod 4294967296"
    by (simp add: unat_of_nat del: of_nat_of_char)
  with md have "unat (of_nat (of_char c) :: int32_t) = of_char c"
    by (simp only:)
  then have "unat (of_char c :: int32_t) = of_char c"
    by (simp only: of_nat_of_char)
  then have "int (unat (of_char c :: int32_t)) = int (of_char c)"
    by simp
  then have u: "uint (of_char c :: int32_t) = of_char c"
    by (simp only: of_nat_of_char) simp
  have "(of_char c :: int) = int (of_char c)" by (simp only: of_nat_of_char)
  with lt have "(of_char c :: int) < 256" by linarith
  with u sint_cases32 [of "of_char c"] show "sint (of_char c :: int32_t) = of_char c"
    by auto
qed

subsection \<open>The pieces of a step\<close>

lemma stack_trace [simp]: "stack (trace w m) = stack m"
  by (simp add: trace_def Let_def)

lemma memory_trace [simp]: "memory (trace w m) = memory m"
  by (simp add: trace_def Let_def)

lemma ip_trace [simp]: "ip (trace w m) = ip m"
  by (simp add: trace_def Let_def)

lemma fin_trace [simp]: "fin (trace w m) = fin m"
  by (simp add: trace_def Let_def)

lemma fout_trace [simp]: "fout (trace w m) = fout m"
  by (simp add: trace_def Let_def)

lemma step_exec:
  "in_memory (ip m) \<Longrightarrow>
   step m = exec (as_Op (memory m (idx (ip m)))) (trace (memory m (idx (ip m))) m)"
  by (simp add: step_def mem_read_def)

lemma step_outside: "\<not> in_memory (ip m) \<Longrightarrow> step m = Undefined SubscriptOutOfRange m"
  by (simp add: step_def mem_read_def)

lemma step_op:
  assumes "in_memory (ip m)" and "as_Op (memory m (idx (ip m))) = Some c"
  shows "step m = exec (Some c) (trace (op_code c) m)"
proof -
  have "memory m (idx (ip m)) = op_code c"
    using assms(2) by (rule as_Op_Some)
  with assms show ?thesis by (simp only: step_exec)
qed

lemma pop_snoc: "stack m = st @ [a] \<Longrightarrow> pop m = Ok a (m\<lparr>stack := st\<rparr>)"
  by (simp add: pop_def)

lemma pop_Ok:
  "pop m = Ok a m1 \<Longrightarrow>
   stack m \<noteq> [] \<and> a = last (stack m) \<and> m1 = m\<lparr>stack := butlast (stack m)\<rparr>"
  by (auto simp: pop_def split: if_splits)

lemma pop_not_Exit: "pop m \<noteq> Exit c m'"
  by (simp add: pop_def)

lemma in_memory_bounds_ok: "in_memory i \<Longrightarrow> bounds_ok i"
  by (simp add: in_memory_def bounds_ok_def)

lemma check_bounds_Exit: "check_bounds a msg m = Exit c m' \<Longrightarrow> c = 1"
  by (auto simp: check_bounds_def split: if_splits)

lemma check_bounds_Ok: "check_bounds a msg m = Ok u m' \<Longrightarrow> m' = m \<and> bounds_ok a"
  by (auto simp: check_bounds_def split: if_splits)

lemma bind_r_Exit:
  "bind_r r f = Exit c m' \<Longrightarrow>
   r = Exit c m' \<or> (\<exists>a m1. r = Ok a m1 \<and> f a m1 = Exit c m')"
  by (cases r) simp_all

subsection \<open>Fuel\<close>

lemma run_numeral:
  "run (numeral k) m =
     (case step m of
        Ok _ m1 \<Rightarrow> run (pred_numeral k) m1
      | Exit c m1 \<Rightarrow> Some (Exit c m1)
      | Undefined u m1 \<Rightarrow> Some (Undefined u m1))"
  by (simp add: numeral_eq_Suc)

lemma run_more: "run n m = Some r \<Longrightarrow> run (n + k) m = Some r"
proof (induction n arbitrary: m)
  case 0
  then show ?case by simp
next
  case (Suc n)
  show ?case
  proof (cases "step m")
    case (Ok u m1)
    with Suc.prems have "run n m1 = Some r" by simp
    then have "run (n + k) m1 = Some r" by (rule Suc.IH)
    with Ok show ?thesis by simp
  next
    case (Exit c m1)
    with Suc.prems have "r = Exit c m1" by simp
    with Exit show ?thesis by simp
  next
    case (Undefined u m1)
    with Suc.prems have "r = Undefined u m1" by simp
    with Undefined show ?thesis by simp
  qed
qed

lemma main_sm_more: "main_sm n argv inp = Some r \<Longrightarrow> main_sm (n + k) argv inp = Some r"
  by (auto simp: main_sm_def run_more split: result.splits)

section \<open>The demo program\<close>

lemma demo_run:
  "\<exists>m. main_sm 28 [prog] inp = Some (Exit 0 m) \<and> fout m = ''Hello world!'' @ [CHR 0x0A]"
  by (simp add: main_sm_def startup_def reset_def init_def load_program_def message_words_def
      load_def mem_write_def in_memory_def CAPACITY_def idx_def next_sm_def step_def
      mem_read_def run_numeral as_Op_def trace_def pop_def push_def putc_def stop_def
      check_bounds_def bounds_ok_def first_char_def Let_def char_of_eq_iff)

text \<open>
  C1.  Run with no arguments (\<open>argv\<close> holds the program's name only), the process loads
  the hardcoded program and, given at least the 28 iterations the program takes, exits with
  status 0 having written exactly the thirteen bytes of \<open>Hello world!\<close> and a newline to
  \<open>fout\<close>, whatever waits on standard input.
\<close>

theorem demo_prints_hello_world:
  "\<exists>m. main_sm (28 + k) [prog] inp = Some (Exit 0 m)
     \<and> fout m = ''Hello world!'' @ [CHR 0x0A] \<and> length (fout m) = 13"
proof -
  from demo_run obtain m where r: "main_sm 28 [prog] inp = Some (Exit 0 m)"
    and o: "fout m = ''Hello world!'' @ [CHR 0x0A]"
    by blast
  from r have "main_sm (28 + k) [prog] inp = Some (Exit 0 m)"
    by (rule main_sm_more)
  with o show ?thesis by simp
qed

section \<open>Halting\<close>

lemma exec_Exit_0:
  assumes "exec c m = Exit 0 m'"
  shows "c = Some JMP \<and> stack m \<noteq> [] \<and> last (stack m) = ip m"
proof (cases c)
  case None
  with assms show ?thesis by simp
next
  case (Some oc)
  show ?thesis
  proof (cases oc)
    case JMP
    with Some assms show ?thesis
      by (auto simp: stop_def pop_not_Exit
          dest!: bind_r_Exit pop_Ok check_bounds_Exit check_bounds_Ok split: if_splits)
  qed (use Some assms in \<open>auto simp: pop_not_Exit add32_def sub32_def mem_read_def
          mem_write_def Let_def dest!: bind_r_Exit check_bounds_Exit
          split: if_splits prod.splits\<close>)
qed

lemma step_Exit_0:
  assumes "step m = Exit 0 m'"
  shows "self_jump m"
proof -
  have im: "in_memory (ip m)"
    using assms by (cases "in_memory (ip m)") (simp_all add: step_outside)
  with assms
  have "exec (as_Op (memory m (idx (ip m)))) (trace (memory m (idx (ip m))) m) = Exit 0 m'"
    by (simp add: step_exec)
  from exec_Exit_0 [OF this] im show ?thesis
    by (simp add: self_jump_def)
qed

lemma run_Exit_0:
  "run n m = Some (Exit 0 m') \<Longrightarrow> \<exists>m0. self_jump m0 \<and> step m0 = Exit 0 m'"
proof (induction n arbitrary: m)
  case 0
  then show ?case by simp
next
  case (Suc n)
  show ?case
  proof (cases "step m")
    case (Ok u m1)
    with Suc.prems have "run n m1 = Some (Exit 0 m')" by simp
    then show ?thesis by (rule Suc.IH)
  next
    case (Exit c m1)
    with Suc.prems have "step m = Exit 0 m'" by simp
    with step_Exit_0 show ?thesis by blast
  next
    case (Undefined u m1)
    with Suc.prems show ?thesis by simp
  qed
qed

text \<open>
  C2.  \<open>JMP\<close> pops an address \<open>a\<close>.  If \<open>a\<close> is the current \<open>ip\<close>, the cell of the
  \<open>JMP\<close> word itself, the process exits with status 0 and no jump is made; otherwise,
  \<open>a\<close> having passed \<open>check_bounds\<close>, \<open>ip\<close> becomes \<open>a\<close> and \<open>next\<close> is not
  called (an \<open>a\<close> that does not pass ends the process with status 1 before the comparison).
  No step exits with status 0 except at a self-jump, and so does no run of the loop.
\<close>

theorem jmp_self_jump_is_halt:
  assumes "in_memory (ip m)" and "as_Op (memory m (idx (ip m))) = Some JMP"
    and "stack m = st @ [a]"
  shows "(a = ip m \<longrightarrow>
            step m = Exit 0 ((trace (op_code JMP) m)
              \<lparr>stack := st, ferr := ferr (trace (op_code JMP) m) @ [Message ''HALT'']\<rparr>))
       \<and> (a \<noteq> ip m \<and> bounds_ok a \<longrightarrow>
            step m = Ok () ((trace (op_code JMP) m)\<lparr>stack := st, ip := a\<rparr>))
       \<and> (\<not> bounds_ok a \<longrightarrow>
            step m = Exit 1 ((trace (op_code JMP) m)
              \<lparr>stack := st,
                ferr := ferr (trace (op_code JMP) m) @ [Message ''JMP out of bounds'']\<rparr>))
       \<and> (\<forall>m1 m2. step m1 = Exit 0 m2 \<longrightarrow> self_jump m1)
       \<and> (\<forall>n m1 m2. run n m1 = Some (Exit 0 m2) \<longrightarrow>
            (\<exists>m0. self_jump m0 \<and> step m0 = Exit 0 m2))"
proof -
  have p: "pop (trace (op_code JMP) m) = Ok a ((trace (op_code JMP) m)\<lparr>stack := st\<rparr>)"
    using assms(3) by (simp add: pop_snoc)
  have e: "step m = exec (Some JMP) (trace (op_code JMP) m)"
    using assms(1,2) by (rule step_op)
  have "step m = Exit 0 ((trace (op_code JMP) m)
             \<lparr>stack := st, ferr := ferr (trace (op_code JMP) m) @ [Message ''HALT'']\<rparr>)"
    if "a = ip m"
    using that in_memory_bounds_ok [OF assms(1)]
    by (simp add: e p check_bounds_def stop_def del: op_code.simps)
  moreover have "step m = Ok () ((trace (op_code JMP) m)\<lparr>stack := st, ip := a\<rparr>)"
    if "a \<noteq> ip m" "bounds_ok a"
    using that
    by (simp add: e p check_bounds_def del: op_code.simps)
  moreover have "step m = Exit 1 ((trace (op_code JMP) m)
              \<lparr>stack := st,
                ferr := ferr (trace (op_code JMP) m) @ [Message ''JMP out of bounds'']\<rparr>)"
    if "\<not> bounds_ok a"
    using that
    by (simp add: e p check_bounds_def del: op_code.simps)
  moreover have "self_jump m1" if "step m1 = Exit 0 m2" for m1 m2
    using that by (rule step_Exit_0)
  moreover have "\<exists>m0. self_jump m0 \<and> step m0 = Exit 0 m2"
    if "run n m1 = Some (Exit 0 m2)" for n m1 m2
    using that by (rule run_Exit_0)
  ultimately show ?thesis by blast
qed

theorem jmp_self_jump_is_halt_witness:
  "in_memory (ip ((startup [])\<lparr>stack := [4], memory := (\<lambda>_. 0)(4 := 11), ip := 4\<rparr>))
   \<and> as_Op (memory ((startup [])\<lparr>stack := [4], memory := (\<lambda>_. 0)(4 := 11), ip := 4\<rparr>)
        (idx (ip ((startup [])\<lparr>stack := [4], memory := (\<lambda>_. 0)(4 := 11), ip := 4\<rparr>))))
      = Some JMP
   \<and> stack ((startup [])\<lparr>stack := [4], memory := (\<lambda>_. 0)(4 := 11), ip := 4\<rparr>) = [] @ [4]
   \<and> step ((startup [])\<lparr>stack := [4], memory := (\<lambda>_. 0)(4 := 11), ip := 4\<rparr>)
      = Exit 0 \<lparr>stack = [], memory = (\<lambda>_. 0)(4 := 11), ip = 4, fin = [], fout = [],
          ferr = [Trace 4 ''JMP'' 1 0 0, Message ''HALT'']\<rparr>"
proof -
  let ?m = "(startup [])\<lparr>stack := [4], memory := (\<lambda>_. 0)(4 := 11), ip := 4\<rparr>"
  have h1: "in_memory (ip ?m)"
    by (simp add: in_memory_def CAPACITY_def)
  have h2: "as_Op (memory ?m (idx (ip ?m))) = Some JMP"
    by (simp add: as_Op_def idx_def)
  have h3: "stack ?m = [] @ [4]"
    by simp
  from jmp_self_jump_is_halt [OF h1 h2 h3]
  have "step ?m = Exit 0 ((trace (op_code JMP) ?m)
          \<lparr>stack := [], ferr := ferr (trace (op_code JMP) ?m) @ [Message ''HALT'']\<rparr>)"
    by simp
  then have "step ?m = Exit 0 \<lparr>stack = [], memory = (\<lambda>_. 0)(4 := 11), ip = 4, fin = [],
      fout = [], ferr = [Trace 4 ''JMP'' 1 0 0, Message ''HALT'']\<rparr>"
    by (simp add: trace_def startup_def as_Op_def)
  with h1 h2 h3 show ?thesis by blast
qed

section \<open>Addresses and the bounds check\<close>

lemma out_of_bounds_not_ok: "sint a < 0 \<or> CAPACITY < sint a \<Longrightarrow> \<not> bounds_ok a"
  by (auto simp: bounds_ok_def)

lemma out_of_bounds_not_0: "sint a < 0 \<or> CAPACITY < sint a \<Longrightarrow> a \<noteq> 0"
  by (auto simp: CAPACITY_def)

text \<open>
  \<open>check_bounds\<close> compares with \<open><=\<close>: the address \<open>CAPACITY\<close> itself, one past the last
  element, passes, and \<open>LOAD\<close> then subscripts the array there.
\<close>

lemma check_bounds_admits_capacity:
  "check_bounds 1024000 msg m = Ok () m \<and> \<not> in_memory 1024000"
  by (simp add: check_bounds_def bounds_ok_def in_memory_def CAPACITY_def)

lemma load_at_capacity:
  "step ((startup [])\<lparr>stack := [1024000], memory := (\<lambda>_. 0)(0 := 9)\<rparr>)
     = Undefined SubscriptOutOfRange
         \<lparr>stack = [], memory = (\<lambda>_. 0)(0 := 9), ip = 0, fin = [], fout = [],
           ferr = [Trace 0 ''LOAD'' 1 0 0]\<rparr>"
  by (simp add: step_def mem_read_def in_memory_def CAPACITY_def startup_def as_Op_def
      trace_def pop_def check_bounds_def bounds_ok_def idx_def)

text \<open>
  C3, as stated, fails on \<open>JZ\<close>: with the negative word -1 popped, \<open>JZ\<close> does not exit
  with status 1; the word is not zero, so the branch is not taken, no bounds check is made
  and the loop goes on at the next instruction.
\<close>

theorem jz_out_of_range_word_counterexample:
  "step ((startup [])\<lparr>stack := [- 1], memory := (\<lambda>_. 0)(0 := 12)\<rparr>)
     = Ok () \<lparr>stack = [], memory = (\<lambda>_. 0)(0 := 12), ip = 4, fin = [], fout = [],
         ferr = [Trace 0 ''JZ'' 1 0 0]\<rparr>
   \<and> sint (- 1 :: int32_t) < 0"
  by (simp add: step_def mem_read_def in_memory_def CAPACITY_def startup_def as_Op_def
      trace_def pop_def idx_def next_sm_def Let_def)

text \<open>
  C3, amended.  For every \<open>LOAD\<close>, \<open>STOR\<close> or \<open>JMP\<close> whose popped address is below 0 or
  above \<open>CAPACITY\<close>, the process exits with status 1 after the message
  \<open>... out of bounds\<close>: the stack has lost the popped operands, nothing is pushed, and
  \<open>memory\<close>, \<open>ip\<close> and \<open>fout\<close> are as before, so the array is neither read nor written
  at that address and the address is not clamped or wrapped.  \<open>JZ\<close> checks the popped word
  only when it is 0: with a word in that range, which is not 0, it never fails and only
  advances \<open>ip\<close>.
\<close>

theorem address_outside_fails:
  assumes "in_memory (ip m)" and "as_Op (memory m (idx (ip m))) = Some c"
    and "sint a < 0 \<or> CAPACITY < sint a"
  shows "(c = LOAD \<and> stack m = st @ [a] \<longrightarrow>
            step m = Exit 1 ((trace (op_code c) m)
              \<lparr>stack := st,
                ferr := ferr (trace (op_code c) m) @ [Message ''LOAD out of bounds'']\<rparr>))
       \<and> (c = STOR \<and> stack m = st @ [b, a] \<longrightarrow>
            step m = Exit 1 ((trace (op_code c) m)
              \<lparr>stack := st,
                ferr := ferr (trace (op_code c) m) @ [Message ''STOR out of bounds'']\<rparr>))
       \<and> (c = JMP \<and> stack m = st @ [a] \<longrightarrow>
            step m = Exit 1 ((trace (op_code c) m)
              \<lparr>stack := st,
                ferr := ferr (trace (op_code c) m) @ [Message ''JMP out of bounds'']\<rparr>))
       \<and> (c = JZ \<and> stack m = st @ [a] \<longrightarrow>
            step m = Ok () (next_sm ((trace (op_code c) m)\<lparr>stack := st\<rparr>)))"
proof -
  have e: "step m = exec (Some c) (trace (op_code c) m)"
    using assms(1,2) by (rule step_op)
  have nb: "\<not> bounds_ok a"
    using assms(3) by (rule out_of_bounds_not_ok)
  have nz: "a \<noteq> 0"
    using assms(3) by (rule out_of_bounds_not_0)
  have p1: "pop (trace w m) = Ok a ((trace w m)\<lparr>stack := st\<rparr>)"
    if "stack m = st @ [a]" for w
    using that by (simp add: pop_snoc)
  have p2: "pop (trace w m) = Ok a ((trace w m)\<lparr>stack := st @ [b]\<rparr>)"
    if "stack m = st @ [b, a]" for w
    using that by (simp add: pop_def butlast_append)
  have p3: "pop ((trace w m)\<lparr>stack := st @ [b]\<rparr>) = Ok b ((trace w m)\<lparr>stack := st\<rparr>)"
    for w
    by (simp add: pop_def)
  show ?thesis
    by (auto simp add: e p1 p2 p3 nb nz check_bounds_def simp del: op_code.simps)
qed

theorem address_outside_fails_witness:
  "in_memory (ip ((startup [])\<lparr>stack := [5, 2000000], memory := (\<lambda>_. 0)(0 := 9)\<rparr>))
   \<and> as_Op (memory ((startup [])\<lparr>stack := [5, 2000000], memory := (\<lambda>_. 0)(0 := 9)\<rparr>)
        (idx (ip ((startup [])\<lparr>stack := [5, 2000000], memory := (\<lambda>_. 0)(0 := 9)\<rparr>))))
      = Some LOAD
   \<and> (sint (2000000 :: int32_t) < 0 \<or> CAPACITY < sint (2000000 :: int32_t))
   \<and> step ((startup [])\<lparr>stack := [5, 2000000], memory := (\<lambda>_. 0)(0 := 9)\<rparr>)
      = Exit 1 \<lparr>stack = [5], memory = (\<lambda>_. 0)(0 := 9), ip = 0, fin = [], fout = [],
          ferr = [Trace 0 ''LOAD'' 2 2000000 0, Message ''LOAD out of bounds'']\<rparr>"
proof -
  let ?m = "(startup [])\<lparr>stack := [5, 2000000], memory := (\<lambda>_. 0)(0 := 9)\<rparr>"
  have h1: "in_memory (ip ?m)"
    by (simp add: in_memory_def CAPACITY_def startup_def)
  have h2: "as_Op (memory ?m (idx (ip ?m))) = Some LOAD"
    by (simp add: as_Op_def idx_def startup_def)
  have h3: "sint (2000000 :: int32_t) < 0 \<or> CAPACITY < sint (2000000 :: int32_t)"
    by (simp add: CAPACITY_def)
  from address_outside_fails [OF h1 h2 h3, of "[5]" 0]
  have "step ?m = Exit 1 ((trace (op_code LOAD) ?m)
          \<lparr>stack := [5],
            ferr := ferr (trace (op_code LOAD) ?m) @ [Message ''LOAD out of bounds'']\<rparr>)"
    by simp
  then have "step ?m = Exit 1 \<lparr>stack = [5], memory = (\<lambda>_. 0)(0 := 9), ip = 0, fin = [],
      fout = [], ferr = [Trace 0 ''LOAD'' 2 2000000 0, Message ''LOAD out of bounds'']\<rparr>"
    by (simp add: trace_def startup_def as_Op_def)
  with h1 h2 h3 show ?thesis by blast
qed

section \<open>Popping an empty stack\<close>

text \<open>
  C4, as stated, fails: \<open>ADD\<close> on the empty stack does not end in a fatal error.  \<open>pop\<close>
  makes no check, and the instruction reaches \<open>back()\<close> on an empty vector.
\<close>

theorem add_on_empty_stack_counterexample:
  "step ((startup [])\<lparr>memory := (\<lambda>_. 0)(0 := 1)\<rparr>)
     = Undefined PopEmpty
         \<lparr>stack = [], memory = (\<lambda>_. 0)(0 := 1), ip = 0, fin = [], fout = [],
           ferr = [Trace 0 ''ADD'' 0 0 0]\<rparr>"
  by (simp add: step_def mem_read_def in_memory_def CAPACITY_def startup_def as_Op_def
      trace_def pop_def idx_def)

text \<open>
  C4, amended.  The program has no stack-underflow check.  For every opcode that pops, if
  the stack holds fewer words than the opcode pops, the instruction reaches \<open>pop\<close> on an
  empty stack, which is undefined behaviour, and no exit with an error status takes place;
  this point is reached with \<open>memory\<close> and \<open>fout\<close> as they were before the instruction.
\<close>

theorem underflow_is_unchecked:
  assumes "in_memory (ip m)" and "as_Op (memory m (idx (ip m))) = Some c"
    and "length (stack m) < pops c"
  shows "step m = Undefined PopEmpty ((trace (op_code c) m)\<lparr>stack := []\<rparr>)
       \<and> memory ((trace (op_code c) m)\<lparr>stack := []\<rparr>) = memory m
       \<and> fout ((trace (op_code c) m)\<lparr>stack := []\<rparr>) = fout m"
proof -
  have e: "step m = exec (Some c) (trace (op_code c) m)"
    using assms(1,2) by (rule step_op)
  consider "stack m = []" | x where "stack m = [x]" "pops c = 2"
  proof (cases "stack m")
    case Nil then show ?thesis using that by blast
  next
    case (Cons x xs)
    with assms(3) have "Suc (length xs) < pops c" by simp
    moreover have "pops c \<le> 2" by (cases c) simp_all
    ultimately have "length xs = 0" "pops c = 2" by linarith+
    then have "xs = []" "pops c = 2" by simp_all
    with Cons show ?thesis using that by blast
  qed
  then have "step m = Undefined PopEmpty ((trace (op_code c) m)\<lparr>stack := []\<rparr>)"
  proof cases
    case 1
    then have "(trace w m)\<lparr>stack := []\<rparr> = trace w m" for w
      by (simp add: trace_def Let_def)
    with 1 assms(3) show ?thesis
      by (cases c) (simp_all add: e pop_def del: op_code.simps)
  next
    case 2
    then show ?thesis
      by (cases c) (simp_all add: e pop_def del: op_code.simps)
  qed
  then show ?thesis by simp
qed

theorem underflow_is_unchecked_witness:
  "in_memory (ip ((startup [])\<lparr>stack := [5], memory := (\<lambda>_. 0)(0 := 10)\<rparr>))
   \<and> as_Op (memory ((startup [])\<lparr>stack := [5], memory := (\<lambda>_. 0)(0 := 10)\<rparr>)
        (idx (ip ((startup [])\<lparr>stack := [5], memory := (\<lambda>_. 0)(0 := 10)\<rparr>))))
      = Some STOR
   \<and> length (stack ((startup [])\<lparr>stack := [5], memory := (\<lambda>_. 0)(0 := 10)\<rparr>)) < pops STOR
   \<and> step ((startup [])\<lparr>stack := [5], memory := (\<lambda>_. 0)(0 := 10)\<rparr>)
      = Undefined PopEmpty
          \<lparr>stack = [], memory = (\<lambda>_. 0)(0 := 10), ip = 0, fin = [], fout = [],
            ferr = [Trace 0 ''STOR'' 1 0 0]\<rparr>"
proof -
  let ?m = "(startup [])\<lparr>stack := [5], memory := (\<lambda>_. 0)(0 := 10)\<rparr>"
  have h1: "in_memory (ip ?m)"
    by (simp add: in_memory_def CAPACITY_def startup_def)
  have h2: "as_Op (memory ?m (idx (ip ?m))) = Some STOR"
    by (simp add: as_Op_def idx_def startup_def)
  have h3: "length (stack ?m) < pops STOR"
    by simp
  from underflow_is_unchecked [OF h1 h2 h3]
  have "step ?m = Undefined PopEmpty ((trace (op_code STOR) ?m)\<lparr>stack := []\<rparr>)"
    by simp
  then have "step ?m = Undefined PopEmpty
      \<lparr>stack = [], memory = (\<lambda>_. 0)(0 := 10), ip = 0, fin = [], fout = [],
        ferr = [Trace 0 ''STOR'' 1 0 0]\<rparr>"
    by (simp add: trace_def startup_def as_Op_def)
  with h1 h2 h3 show ?thesis by blast
qed

section \<open>A word that is no opcode\<close>

lemma run_unknown:
  "in_memory (ip m) \<Longrightarrow> as_Op (memory m (idx (ip m))) = None \<Longrightarrow> run n m = None"
proof (induction n arbitrary: m)
  case 0
  show ?case by simp
next
  case (Suc n)
  let ?m1 = "trace (memory m (idx (ip m))) m"
  from Suc.prems have s: "step m = Ok () ?m1"
    by (simp add: step_exec)
  from Suc.prems have "run n ?m1 = None"
    by (intro Suc.IH) simp_all
  with s show ?case by simp
qed

text \<open>
  C5, as stated, fails: with the word 15, the value of no enumerator, in the cell at
  \<open>ip\<close>, the step does not exit with status 1.  It prints the trace line, which names the
  word \<open>NOP\<close>, and leaves the machine as it is; five iterations later the process still
  has not exited.
\<close>

theorem unknown_opcode_counterexample:
  "step ((startup [])\<lparr>memory := (\<lambda>_. 0)(0 := 15)\<rparr>)
     = Ok () \<lparr>stack = [], memory = (\<lambda>_. 0)(0 := 15), ip = 0, fin = [], fout = [],
         ferr = [Trace 0 ''NOP'' 0 0 0]\<rparr>
   \<and> run 5 ((startup [])\<lparr>memory := (\<lambda>_. 0)(0 := 15)\<rparr>) = None"
  by (simp add: step_def mem_read_def in_memory_def CAPACITY_def startup_def as_Op_def
      trace_def idx_def run_numeral)

text \<open>
  C5, amended.  When the word fetched at \<open>ip\<close> is the value of no enumerator of \<open>Op\<close>,
  no case of the \<open>switch\<close> runs and there is no error and no exit: the step only prints
  its trace line, in which the word is named \<open>NOP\<close>, and leaves \<open>ip\<close>, the stack,
  \<open>memory\<close> and both streams unchanged (it is not executed as \<open>NOP\<close>, which would
  advance \<open>ip\<close>).  The loop then fetches the same word again, for ever: no amount of
  fuel makes the run return.
\<close>

theorem unknown_opcode_spins:
  assumes "in_memory (ip m)" and "memory m (idx (ip m)) \<notin> range op_code"
  shows "step m = Ok () (m\<lparr>ferr := ferr m @
            [Trace (ip m) ''NOP'' (length (stack m))
               (if length (stack m) > 1 then stack m ! (length (stack m) - 1) else 0)
               (if length (stack m) > 2 then stack m ! (length (stack m) - 1) else 0)]\<rparr>)
       \<and> (\<forall>n. run n m = None)"
proof -
  have n: "as_Op (memory m (idx (ip m))) = None"
    using assms(2) by (simp add: as_Op_None_iff)
  have "step m = Ok () (trace (memory m (idx (ip m))) m)"
    using assms(1) n by (simp add: step_exec)
  moreover have "trace (memory m (idx (ip m))) m = m\<lparr>ferr := ferr m @
            [Trace (ip m) ''NOP'' (length (stack m))
               (if length (stack m) > 1 then stack m ! (length (stack m) - 1) else 0)
               (if length (stack m) > 2 then stack m ! (length (stack m) - 1) else 0)]\<rparr>"
    using n by (simp add: trace_def Let_def)
  moreover have "run k m = None" for k
    using assms(1) n by (rule run_unknown)
  ultimately show ?thesis by simp
qed

theorem unknown_opcode_spins_witness:
  "in_memory (ip ((startup [])\<lparr>stack := [3, 7], memory := (\<lambda>_. 0)(0 := 99)\<rparr>))
   \<and> memory ((startup [])\<lparr>stack := [3, 7], memory := (\<lambda>_. 0)(0 := 99)\<rparr>)
        (idx (ip ((startup [])\<lparr>stack := [3, 7], memory := (\<lambda>_. 0)(0 := 99)\<rparr>)))
      \<notin> range op_code
   \<and> step ((startup [])\<lparr>stack := [3, 7], memory := (\<lambda>_. 0)(0 := 99)\<rparr>)
      = Ok () \<lparr>stack = [3, 7], memory = (\<lambda>_. 0)(0 := 99), ip = 0, fin = [], fout = [],
          ferr = [Trace 0 ''NOP'' 2 7 0]\<rparr>
   \<and> run 1000 ((startup [])\<lparr>stack := [3, 7], memory := (\<lambda>_. 0)(0 := 99)\<rparr>) = None"
proof -
  let ?m = "(startup [])\<lparr>stack := [3, 7], memory := (\<lambda>_. 0)(0 := 99)\<rparr>"
  have h1: "in_memory (ip ?m)"
    by (simp add: in_memory_def CAPACITY_def startup_def)
  have "as_Op (memory ?m (idx (ip ?m))) = None"
    by (simp add: as_Op_def idx_def startup_def)
  then have h2: "memory ?m (idx (ip ?m)) \<notin> range op_code"
    by (rule iffD1 [OF as_Op_None_iff])
  from unknown_opcode_spins [OF h1 h2]
  have "step ?m = Ok () \<lparr>stack = [3, 7], memory = (\<lambda>_. 0)(0 := 99), ip = 0, fin = [],
      fout = [], ferr = [Trace 0 ''NOP'' 2 7 0]\<rparr>" and "run 1000 ?m = None"
    by (simp_all add: startup_def)
  with h1 h2 show ?thesis by blast
qed

section \<open>The range of the instruction pointer\<close>

lemma next_sm_plain:
  assumes "0 \<le> sint (ip m)" and "sint (ip m) + 4 \<le> CAPACITY"
  shows "next_sm m = m\<lparr>ip := ip m + 4\<rparr>"
proof -
  from assms have "sint (ip m + 4) = sint (ip m) + 4"
    by (intro sint_plus4) simp_all
  with assms have "\<not> (sint (ip m + 4) < 0 \<or> CAPACITY < sint (ip m + 4))"
    by simp
  then have "\<not> CAPACITY < uint (ip m + 4)"
    by (simp add: size_t_compare)
  then show ?thesis
    by (simp add: next_sm_def Let_def)
qed

lemma idx_plus4:
  assumes "0 \<le> sint i" and "sint i \<le> CAPACITY"
  shows "idx (i + 4) = idx i + 4"
  using assms by (simp add: idx_def sint_plus4 nat_add_distrib)

text \<open>What \<open>next\<close> and \<open>check_bounds\<close> do keep: \<open>ip\<close> between 0 and \<open>CAPACITY\<close>, inclusive.\<close>

lemma next_sm_bounds_ok: "bounds_ok (ip (next_sm m))"
  using size_t_compare [of "ip m + 4"]
  by (auto simp: next_sm_def Let_def bounds_ok_def CAPACITY_def)

lemma next_sm_push [simp]: "ip (next_sm (push v m)) = ip (next_sm m)"
  by (simp add: next_sm_def push_def Let_def)

lemma next_sm_putc [simp]: "ip (next_sm (putc v m)) = ip (next_sm m)"
  by (simp add: next_sm_def putc_def Let_def)

lemma bind_r_Ok:
  "bind_r r f = Ok u m' \<Longrightarrow> \<exists>a m1. r = Ok a m1 \<and> f a m1 = Ok u m'"
  by (cases r) simp_all

lemma exec_ip_bounds_ok:
  assumes "exec c m = Ok u m'" and "bounds_ok (ip m)"
  shows "bounds_ok (ip m')"
proof (cases c)
  case None
  with assms show ?thesis by simp
next
  case (Some oc)
  show ?thesis
    using Some assms
    by (cases oc)
      (auto simp: next_sm_bounds_ok add32_def sub32_def mem_read_def mem_write_def Let_def
        getc_def stop_def
        dest!: bind_r_Ok check_bounds_Ok pop_Ok split: if_splits prod.splits list.splits)
qed

lemma step_ip_bounds_ok:
  assumes "step m = Ok u m'" and "bounds_ok (ip m)"
  shows "bounds_ok (ip m')"
proof -
  have im: "in_memory (ip m)"
    using assms by (cases "in_memory (ip m)") (simp_all add: step_outside)
  with assms(1)
  have "exec (as_Op (memory m (idx (ip m)))) (trace (memory m (idx (ip m))) m) = Ok u m'"
    by (simp add: step_exec)
  then show ?thesis
    by (rule exec_ip_bounds_ok) (use assms(2) in simp)
qed

text \<open>
  A memory of \<open>NOP\<close> words walks \<open>ip\<close> in strides of 4 up to \<open>CAPACITY\<close> itself, where
  the fetch subscripts the array one past its last element.
\<close>

lemma nop_walk:
  assumes "memory m = (\<lambda>_. 0)" and "0 \<le> sint (ip m)"
    and "sint (ip m) + 4 * int d = CAPACITY"
  shows "\<exists>m'. run (Suc d + k) m = Some (Undefined SubscriptOutOfRange m')
           \<and> sint (ip m') = CAPACITY"
  using assms
proof (induction d arbitrary: m)
  case 0
  then have "\<not> in_memory (ip m)"
    by (simp add: in_memory_def)
  then have "step m = Undefined SubscriptOutOfRange m"
    by (rule step_outside)
  with 0 show ?case by simp
next
  case (Suc d)
  let ?t = "trace 0 m"
  from Suc.prems have im: "in_memory (ip m)"
    by (simp add: in_memory_def)
  with Suc.prems(1) have s: "step m = Ok () (next_sm ?t)"
    by (simp add: step_exec as_Op_def)
  from Suc.prems have n: "next_sm ?t = ?t\<lparr>ip := ip m + 4\<rparr>"
    using next_sm_plain [of ?t] by simp
  from Suc.prems have s4: "sint (ip m + 4) = sint (ip m) + 4"
    by (intro sint_plus4) simp_all
  have "\<exists>m'. run (Suc d + k) (?t\<lparr>ip := ip m + 4\<rparr>)
          = Some (Undefined SubscriptOutOfRange m') \<and> sint (ip m') = CAPACITY"
    using Suc.prems by (intro Suc.IH) (simp_all add: s4)
  with s n show ?case by simp
qed

lemma walk_from_reset:
  "\<exists>m'. run 256001 (reset (startup inp)) = Some (Undefined SubscriptOutOfRange m')
     \<and> sint (ip m') = CAPACITY"
proof -
  have "\<exists>m'. run (Suc 256000 + 0) (reset (startup inp))
          = Some (Undefined SubscriptOutOfRange m') \<and> sint (ip m') = CAPACITY"
    by (rule nop_walk) (simp_all add: reset_def CAPACITY_def)
  moreover have "Suc 256000 + 0 = (256001 :: nat)" by simp
  ultimately show ?thesis by (simp only:)
qed

text \<open>
  C6 does not hold of the code.  \<open>next\<close> sets \<open>ip\<close> back to zero only when \<open>ip\<close> is
  greater than \<open>CAPACITY\<close>, so \<open>ip = CAPACITY\<close> survives the increment: from the cell
  1023996 a \<open>NOP\<close> leaves \<open>ip\<close> at 1024000, which is \<open>CAPACITY\<close>, and the fetch that
  follows subscripts \<open>memory\<close> outside the array.  A freshly reset memory, all \<open>NOP\<close>,
  run from \<open>ip = 0\<close> gets there in 256000 iterations.
\<close>

theorem ip_reaches_capacity:
  "step ((startup [])\<lparr>ip := 1023996\<rparr>)
     = Ok () \<lparr>stack = [], memory = (\<lambda>_. 0), ip = 1024000, fin = [], fout = [],
         ferr = [Trace 1023996 ''NOP'' 0 0 0]\<rparr>
   \<and> sint (1024000 :: int32_t) = CAPACITY
   \<and> step \<lparr>stack = [], memory = (\<lambda>_. 0), ip = 1024000, fin = [], fout = [],
         ferr = [Trace 1023996 ''NOP'' 0 0 0]\<rparr>
     = Undefined SubscriptOutOfRange
         \<lparr>stack = [], memory = (\<lambda>_. 0), ip = 1024000, fin = [], fout = [],
           ferr = [Trace 1023996 ''NOP'' 0 0 0]\<rparr>
   \<and> (\<exists>m'. run 256001 (reset (startup [])) = Some (Undefined SubscriptOutOfRange m')
         \<and> sint (ip m') = CAPACITY)"
proof -
  have "step ((startup [])\<lparr>ip := 1023996\<rparr>)
     = Ok () \<lparr>stack = [], memory = (\<lambda>_. 0), ip = 1024000, fin = [], fout = [],
         ferr = [Trace 1023996 ''NOP'' 0 0 0]\<rparr>"
    by (simp add: step_def mem_read_def in_memory_def CAPACITY_def startup_def as_Op_def
        trace_def next_sm_def Let_def)
  moreover have "sint (1024000 :: int32_t) = CAPACITY"
    by (simp add: CAPACITY_def)
  moreover have "step \<lparr>stack = [], memory = (\<lambda>_. 0), ip = 1024000, fin = [], fout = [],
         ferr = [Trace 1023996 ''NOP'' 0 0 0]\<rparr>
     = Undefined SubscriptOutOfRange
         \<lparr>stack = [], memory = (\<lambda>_. 0), ip = 1024000, fin = [], fout = [],
           ferr = [Trace 1023996 ''NOP'' 0 0 0]\<rparr>"
    by (simp add: step_def mem_read_def in_memory_def CAPACITY_def)
  ultimately show ?thesis
    using walk_from_reset [of "[]"] by blast
qed

section \<open>The conditional jump\<close>

lemma jz_zero_ok: "bounds_ok 0"
  by (simp add: bounds_ok_def CAPACITY_def)

lemma next_sm_wrap:
  assumes "0 \<le> sint (ip m)" and "sint (ip m) \<le> CAPACITY" and "CAPACITY < sint (ip m) + 4"
  shows "next_sm m = m\<lparr>ip := 0\<rparr>"
proof -
  from assms(1,2) have "sint (ip m + 4) = sint (ip m) + 4"
    by (rule sint_plus4)
  with assms(3) have "sint (ip m + 4) < 0 \<or> CAPACITY < sint (ip m + 4)"
    by simp
  then have "CAPACITY < uint (ip m + 4)"
    by (simp add: size_t_compare)
  then show ?thesis
    by (simp add: next_sm_def Let_def)
qed

text \<open>
  C7.  \<open>JZ\<close> pops one word \<open>a\<close>.  If \<open>a\<close> is not 0 the instruction only calls \<open>next\<close>,
  which moves \<open>ip\<close> on by the stride of 4 to \<open>ip + 4\<close>, a cell other than the one of the
  \<open>JZ\<close> word (or back to 0 where \<open>ip + 4\<close> would exceed \<open>CAPACITY\<close>), and changes
  nothing else but the stack, which has lost \<open>a\<close>; no jump to \<open>a\<close> is made.  If \<open>a\<close>
  is 0 it checks \<open>a\<close> with \<open>check_bounds\<close>, which 0 passes, and sets \<open>ip\<close> to \<open>a\<close>:
  the popped word is both the condition and the target, and every branch taken goes to
  address 0.
\<close>

theorem jz_condition_is_target:
  assumes "in_memory (ip m)" and "as_Op (memory m (idx (ip m))) = Some JZ"
    and "stack m = st @ [a]"
  shows "(a \<noteq> 0 \<longrightarrow> step m = Ok () (next_sm ((trace (op_code JZ) m)\<lparr>stack := st\<rparr>)))
       \<and> (a \<noteq> 0 \<and> sint (ip m) + 4 < CAPACITY \<longrightarrow>
            step m = Ok () ((trace (op_code JZ) m)\<lparr>stack := st, ip := ip m + 4\<rparr>)
            \<and> sint (ip m + 4) = sint (ip m) + 4 \<and> ip m + 4 \<noteq> ip m)
       \<and> (a \<noteq> 0 \<and> CAPACITY < sint (ip m) + 4 \<longrightarrow>
            step m = Ok () ((trace (op_code JZ) m)\<lparr>stack := st, ip := 0\<rparr>))
       \<and> (a = 0 \<longrightarrow> bounds_ok a
            \<and> step m = Ok () ((trace (op_code JZ) m)\<lparr>stack := st, ip := a\<rparr>)
            \<and> step m = Ok () ((trace (op_code JZ) m)\<lparr>stack := st, ip := 0\<rparr>))"
proof -
  let ?t = "(trace (op_code JZ) m)\<lparr>stack := st\<rparr>"
  have p: "pop (trace (op_code JZ) m) = Ok a ?t"
    using assms(3) by (simp add: pop_snoc)
  have e: "step m = exec (Some JZ) (trace (op_code JZ) m)"
    using assms(1,2) by (rule step_op)
  from assms(1) have ge: "0 \<le> sint (ip m)" and lt: "sint (ip m) < CAPACITY"
    by (simp_all add: in_memory_def)
  have s4: "sint (ip m + 4) = sint (ip m) + 4"
    using ge lt by (intro sint_plus4) simp_all
  have ne: "ip m + 4 \<noteq> ip m"
  proof
    assume "ip m + 4 = ip m"
    then have "sint (ip m + 4) = sint (ip m)" by simp
    with s4 show False by simp
  qed
  have plain: "next_sm ?t = ?t\<lparr>ip := ip m + 4\<rparr>" if "sint (ip m) + 4 < CAPACITY"
    using that ge next_sm_plain [of ?t] by simp
  have wrap: "next_sm ?t = ?t\<lparr>ip := 0\<rparr>" if "CAPACITY < sint (ip m) + 4"
    using that ge lt next_sm_wrap [of ?t] by simp
  have c1: "a \<noteq> 0 \<longrightarrow> step m = Ok () (next_sm ?t)"
    by (simp add: e p del: op_code.simps)
  have c2: "a \<noteq> 0 \<and> sint (ip m) + 4 < CAPACITY \<longrightarrow>
      step m = Ok () ((trace (op_code JZ) m)\<lparr>stack := st, ip := ip m + 4\<rparr>)
      \<and> sint (ip m + 4) = sint (ip m) + 4 \<and> ip m + 4 \<noteq> ip m"
    using c1 plain s4 ne by simp
  have c3: "a \<noteq> 0 \<and> CAPACITY < sint (ip m) + 4 \<longrightarrow>
      step m = Ok () ((trace (op_code JZ) m)\<lparr>stack := st, ip := 0\<rparr>)"
    using c1 wrap by simp
  have c4: "a = 0 \<longrightarrow> bounds_ok a
      \<and> step m = Ok () ((trace (op_code JZ) m)\<lparr>stack := st, ip := a\<rparr>)
      \<and> step m = Ok () ((trace (op_code JZ) m)\<lparr>stack := st, ip := 0\<rparr>)"
    by (simp add: e p check_bounds_def jz_zero_ok del: op_code.simps)
  from c1 c2 c3 c4 show ?thesis by blast
qed

theorem jz_condition_is_target_witness:
  "in_memory (ip ((startup [])\<lparr>stack := [6, 7], memory := (\<lambda>_. 0)(8 := 12), ip := 8\<rparr>))
   \<and> as_Op (memory ((startup [])\<lparr>stack := [6, 7], memory := (\<lambda>_. 0)(8 := 12), ip := 8\<rparr>)
        (idx (ip ((startup [])\<lparr>stack := [6, 7], memory := (\<lambda>_. 0)(8 := 12), ip := 8\<rparr>))))
      = Some JZ
   \<and> stack ((startup [])\<lparr>stack := [6, 7], memory := (\<lambda>_. 0)(8 := 12), ip := 8\<rparr>)
      = [6] @ [7]
   \<and> (7 :: int32_t) \<noteq> 0
   \<and> sint (ip ((startup [])\<lparr>stack := [6, 7], memory := (\<lambda>_. 0)(8 := 12), ip := 8\<rparr>)) + 4
      < CAPACITY
   \<and> step ((startup [])\<lparr>stack := [6, 7], memory := (\<lambda>_. 0)(8 := 12), ip := 8\<rparr>)
      = Ok () \<lparr>stack = [6], memory = (\<lambda>_. 0)(8 := 12), ip = 12, fin = [], fout = [],
          ferr = [Trace 8 ''JZ'' 2 7 0]\<rparr>
   \<and> in_memory (ip ((startup [])\<lparr>stack := [6, 0], memory := (\<lambda>_. 0)(8 := 12), ip := 8\<rparr>))
   \<and> as_Op (memory ((startup [])\<lparr>stack := [6, 0], memory := (\<lambda>_. 0)(8 := 12), ip := 8\<rparr>)
        (idx (ip ((startup [])\<lparr>stack := [6, 0], memory := (\<lambda>_. 0)(8 := 12), ip := 8\<rparr>))))
      = Some JZ
   \<and> stack ((startup [])\<lparr>stack := [6, 0], memory := (\<lambda>_. 0)(8 := 12), ip := 8\<rparr>)
      = [6] @ [0]
   \<and> step ((startup [])\<lparr>stack := [6, 0], memory := (\<lambda>_. 0)(8 := 12), ip := 8\<rparr>)
      = Ok () \<lparr>stack = [6], memory = (\<lambda>_. 0)(8 := 12), ip = 0, fin = [], fout = [],
          ferr = [Trace 8 ''JZ'' 2 0 0]\<rparr>"
proof -
  let ?n = "(startup [])\<lparr>stack := [6, 7], memory := (\<lambda>_. 0)(8 := 12), ip := 8\<rparr>"
  let ?m = "(startup [])\<lparr>stack := [6, 0], memory := (\<lambda>_. 0)(8 := 12), ip := 8\<rparr>"
  have n1: "in_memory (ip ?n)"
    by (simp add: in_memory_def CAPACITY_def startup_def)
  have n2: "as_Op (memory ?n (idx (ip ?n))) = Some JZ"
    by (simp add: as_Op_def idx_def startup_def)
  have n3: "stack ?n = [6] @ [7]"
    by simp
  have n4: "(7 :: int32_t) \<noteq> 0"
    by simp
  have n5: "sint (ip ?n) + 4 < CAPACITY"
    by (simp add: CAPACITY_def)
  from jz_condition_is_target [OF n1 n2 n3] n4 n5
  have "step ?n = Ok () ((trace (op_code JZ) ?n)\<lparr>stack := [6], ip := ip ?n + 4\<rparr>)"
    by blast
  then have sn: "step ?n = Ok () \<lparr>stack = [6], memory = (\<lambda>_. 0)(8 := 12), ip = 12,
      fin = [], fout = [], ferr = [Trace 8 ''JZ'' 2 7 0]\<rparr>"
    by (simp add: trace_def startup_def as_Op_def)
  have h1: "in_memory (ip ?m)"
    by (simp add: in_memory_def CAPACITY_def startup_def)
  have h2: "as_Op (memory ?m (idx (ip ?m))) = Some JZ"
    by (simp add: as_Op_def idx_def startup_def)
  have h3: "stack ?m = [6] @ [0]"
    by simp
  from jz_condition_is_target [OF h1 h2 h3]
  have "step ?m = Ok () ((trace (op_code JZ) ?m)\<lparr>stack := [6], ip := 0\<rparr>)"
    by simp
  then have sm: "step ?m = Ok () \<lparr>stack = [6], memory = (\<lambda>_. 0)(8 := 12), ip = 0,
      fin = [], fout = [], ferr = [Trace 8 ''JZ'' 2 0 0]\<rparr>"
    by (simp add: trace_def startup_def as_Op_def)
  from n1 n2 n3 n4 n5 sn h1 h2 h3 sm show ?thesis by blast
qed

section \<open>The immediate operand of PUSH\<close>

text \<open>
  C8, as stated, fails: \<open>next\<close> adds \<open>sizeof(int32_t)\<close>, which is 4, to an \<open>ip\<close> that
  subscripts an array of \<open>int32_t\<close>.  With \<open>PUSH\<close> in cell 0, 7 in cell 1 (the word
  directly after it) and 9 in cell 4, the step pushes 9 and leaves \<open>ip\<close> at 8, not 7 and 2.
\<close>

theorem push_operand_counterexample:
  "step ((startup [])\<lparr>memory := (\<lambda>_. 0)(0 := 13, 1 := 7, 4 := 9)\<rparr>)
     = Ok () \<lparr>stack = [9], memory = (\<lambda>_. 0)(0 := 13, 1 := 7, 4 := 9), ip = 8, fin = [],
         fout = [], ferr = [Trace 0 ''NOP'' 0 0 0]\<rparr>"
  by (simp add: step_def mem_read_def in_memory_def CAPACITY_def startup_def as_Op_def
      trace_def push_def idx_def next_sm_def Let_def)

text \<open>
  C8, amended.  \<open>PUSH\<close> advances \<open>ip\<close> by four cells of \<open>memory\<close> (\<open>sizeof(int32_t)\<close>
  array elements), reads the word in the cell at the new \<open>ip\<close> as the immediate, pushes
  it, and advances \<open>ip\<close> by four cells again: the operand is in cell \<open>ip + 4\<close>, and the
  next instruction in cell \<open>ip + 8\<close>.  This is stated where \<open>ip + 8\<close> is below
  \<open>CAPACITY\<close>, so that neither call of \<open>next\<close> wraps round and \<open>ip\<close> stays inside
  \<open>memory\<close>.
\<close>

theorem push_operand_is_four_cells_on:
  assumes "in_memory (ip m)" and "as_Op (memory m (idx (ip m))) = Some PUSH"
    and "sint (ip m) + 8 < CAPACITY"
  shows "step m = Ok () ((trace (op_code PUSH) m)
           \<lparr>stack := stack m @ [memory m (idx (ip m) + 4)], ip := ip m + 8\<rparr>)
       \<and> sint (ip m + 8) = sint (ip m) + 8 \<and> in_memory (ip m + 8)"
proof -
  let ?t = "trace (op_code PUSH) m"
  have e: "step m = exec (Some PUSH) ?t"
    using assms(1,2) by (rule step_op)
  from assms(1) have ge: "0 \<le> sint (ip m)" and lt: "sint (ip m) < CAPACITY"
    by (simp_all add: in_memory_def)
  have n1: "next_sm ?t = ?t\<lparr>ip := ip m + 4\<rparr>"
    using ge assms(3) next_sm_plain [of ?t] by simp
  have s4: "sint (ip m + 4) = sint (ip m) + 4"
    using ge lt by (intro sint_plus4) simp_all
  have im: "in_memory (ip m + 4)"
    using ge assms(3) by (simp add: in_memory_def s4)
  have ix: "idx (ip m + 4) = idx (ip m) + 4"
    using ge lt by (intro idx_plus4) simp_all
  have n2: "next_sm (push v (?t\<lparr>ip := ip m + 4\<rparr>))
      = (push v (?t\<lparr>ip := ip m + 4\<rparr>))\<lparr>ip := ip m + 8\<rparr>" for v
    using ge assms(3) next_sm_plain [of "push v (?t\<lparr>ip := ip m + 4\<rparr>)"]
    by (simp add: push_def s4)
  have "sint (ip m + 4 + 4) = sint (ip m + 4) + 4"
    using ge assms(3) by (intro sint_plus4) (simp_all add: s4)
  moreover have "ip m + 4 + 4 = ip m + 8"
    by simp
  ultimately have s8: "sint (ip m + 8) = sint (ip m) + 8"
    using s4 by (simp only:)
  have i8: "in_memory (ip m + 8)"
    using ge assms(3) by (simp add: in_memory_def s8)
  have "step m = Ok () ((trace (op_code PUSH) m)
           \<lparr>stack := stack m @ [memory m (idx (ip m) + 4)], ip := ip m + 8\<rparr>)"
    by (simp add: e n1 mem_read_def im ix n2 Let_def del: op_code.simps) (simp add: push_def)
  with s8 i8 show ?thesis by simp
qed

theorem push_operand_is_four_cells_on_witness:
  "in_memory (ip ((startup [])\<lparr>memory := (\<lambda>_. 0)(100 := 13, 104 := 42), ip := 100\<rparr>))
   \<and> as_Op (memory ((startup [])\<lparr>memory := (\<lambda>_. 0)(100 := 13, 104 := 42), ip := 100\<rparr>)
        (idx (ip ((startup [])\<lparr>memory := (\<lambda>_. 0)(100 := 13, 104 := 42), ip := 100\<rparr>))))
      = Some PUSH
   \<and> sint (ip ((startup [])\<lparr>memory := (\<lambda>_. 0)(100 := 13, 104 := 42), ip := 100\<rparr>)) + 8
      < CAPACITY
   \<and> step ((startup [])\<lparr>memory := (\<lambda>_. 0)(100 := 13, 104 := 42), ip := 100\<rparr>)
      = Ok () \<lparr>stack = [42], memory = (\<lambda>_. 0)(100 := 13, 104 := 42), ip = 108, fin = [],
          fout = [], ferr = [Trace 100 ''NOP'' 0 0 0]\<rparr>"
proof -
  let ?m = "(startup [])\<lparr>memory := (\<lambda>_. 0)(100 := 13, 104 := 42), ip := 100\<rparr>"
  have h1: "in_memory (ip ?m)"
    by (simp add: in_memory_def CAPACITY_def startup_def)
  have h2: "as_Op (memory ?m (idx (ip ?m))) = Some PUSH"
    by (simp add: as_Op_def idx_def startup_def)
  have h3: "sint (ip ?m) + 8 < CAPACITY"
    by (simp add: CAPACITY_def)
  from push_operand_is_four_cells_on [OF h1 h2 h3]
  have "step ?m = Ok () ((trace (op_code PUSH) ?m)
          \<lparr>stack := stack ?m @ [memory ?m (idx (ip ?m) + 4)], ip := ip ?m + 8\<rparr>)"
    by (rule conjunct1)
  then have "step ?m = Ok () \<lparr>stack = [42], memory = (\<lambda>_. 0)(100 := 13, 104 := 42),
      ip = 108, fin = [], fout = [], ferr = [Trace 100 ''NOP'' 0 0 0]\<rparr>"
    by (simp add: trace_def startup_def as_Op_def idx_def)
  with h1 h2 h3 show ?thesis by blast
qed

section \<open>Reading a byte\<close>

text \<open>
  C9, as stated, fails: for the input byte 0xFF, \<open>IN\<close> pushes 255, the value of the byte as
  an \<open>unsigned char\<close>, while the byte sign-extended to 32 bits is -1.
\<close>

theorem in_byte_counterexample:
  "step ((startup [CHR 0xFF])\<lparr>memory := (\<lambda>_. 0)(0 := 7)\<rparr>)
     = Ok () \<lparr>stack = [255], memory = (\<lambda>_. 0)(0 := 7), ip = 4, fin = [], fout = [],
         ferr = [Trace 0 ''IN'' 0 0 0]\<rparr>
   \<and> scast (of_char (CHR 0xFF) :: 8 word) = (- 1 :: int32_t)
   \<and> (255 :: int32_t) \<noteq> - 1"
  by (simp add: step_def mem_read_def in_memory_def CAPACITY_def startup_def as_Op_def
      trace_def push_def getc_def idx_def next_sm_def Let_def)

text \<open>
  C9, amended.  \<open>IN\<close> reads one byte from \<open>fin\<close> and pushes its value zero-extended into
  a 32-bit word, a value from 0 to 255; at the end of the stream it pushes -1.  It then
  calls \<open>next\<close>.
\<close>

theorem in_pushes_byte_value:
  assumes "in_memory (ip m)" and "as_Op (memory m (idx (ip m))) = Some IN"
  shows "(fin m = c # cs \<longrightarrow>
            step m = Ok () (next_sm ((trace (op_code IN) m)
              \<lparr>fin := cs, stack := stack m @ [of_char c]\<rparr>))
            \<and> 0 \<le> sint (of_char c :: int32_t) \<and> sint (of_char c :: int32_t) \<le> 255)
       \<and> (fin m = [] \<longrightarrow>
            step m = Ok () (next_sm ((trace (op_code IN) m)\<lparr>stack := stack m @ [- 1]\<rparr>)))"
proof -
  have e: "step m = exec (Some IN) (trace (op_code IN) m)"
    using assms(1,2) by (rule step_op)
  have "(of_char c :: nat) < 256" by simp
  then have "int (of_char c) < 256" by linarith
  then have lt: "(of_char c :: int) < 256" by (simp only: of_nat_of_char)
  have "0 \<le> int (of_char c)" by simp
  then have ge: "0 \<le> (of_char c :: int)" by (simp only: of_nat_of_char)
  show ?thesis
    using lt ge
    by (simp add: e getc_def push_def EOF_def sint_of_char del: op_code.simps)
qed

theorem in_pushes_byte_value_witness:
  "in_memory (ip ((startup [CHR 0xE9, CHR ''x''])\<lparr>memory := (\<lambda>_. 0)(0 := 7)\<rparr>))
   \<and> as_Op (memory ((startup [CHR 0xE9, CHR ''x''])\<lparr>memory := (\<lambda>_. 0)(0 := 7)\<rparr>)
        (idx (ip ((startup [CHR 0xE9, CHR ''x''])\<lparr>memory := (\<lambda>_. 0)(0 := 7)\<rparr>))))
      = Some IN
   \<and> fin ((startup [CHR 0xE9, CHR ''x''])\<lparr>memory := (\<lambda>_. 0)(0 := 7)\<rparr>)
      = CHR 0xE9 # [CHR ''x'']
   \<and> step ((startup [CHR 0xE9, CHR ''x''])\<lparr>memory := (\<lambda>_. 0)(0 := 7)\<rparr>)
      = Ok () \<lparr>stack = [233], memory = (\<lambda>_. 0)(0 := 7), ip = 4, fin = [CHR ''x''],
          fout = [], ferr = [Trace 0 ''IN'' 0 0 0]\<rparr>"
proof -
  let ?m = "(startup [CHR 0xE9, CHR ''x''])\<lparr>memory := (\<lambda>_. 0)(0 := 7)\<rparr>"
  have h1: "in_memory (ip ?m)"
    by (simp add: in_memory_def CAPACITY_def startup_def)
  have h2: "as_Op (memory ?m (idx (ip ?m))) = Some IN"
    by (simp add: as_Op_def idx_def startup_def)
  have h3: "fin ?m = CHR 0xE9 # [CHR ''x'']"
    by (simp add: startup_def)
  from in_pushes_byte_value [OF h1 h2, of "CHR 0xE9" "[CHR ''x'']"] h3
  have "step ?m = Ok () (next_sm ((trace (op_code IN) ?m)
          \<lparr>fin := [CHR ''x''], stack := stack ?m @ [of_char (CHR 0xE9)]\<rparr>))"
    by blast
  then have "step ?m = Ok () \<lparr>stack = [233], memory = (\<lambda>_. 0)(0 := 7), ip = 4,
      fin = [CHR ''x''], fout = [], ferr = [Trace 0 ''IN'' 0 0 0]\<rparr>"
    by (simp add: trace_def startup_def as_Op_def next_sm_def CAPACITY_def Let_def)
  with h1 h2 h3 show ?thesis by blast
qed

section \<open>The names of the opcodes\<close>

lemma to_s_own_name: "to_s (Some c) = op_name c \<longleftrightarrow> c \<noteq> PUSH \<and> c \<noteq> DUP"
  by (cases c) simp_all

text \<open>
  C10 does not hold of the code: \<open>DUP\<close> is not the only opcode without a case in
  \<open>to_s\<close>.  \<open>PUSH\<close> has none either and reaches \<open>default\<close>, so \<open>to_s\<close> returns
  \<open>NOP\<close> for \<open>PUSH\<close> as it does for \<open>DUP\<close>, and the row of the help table for the
  opcode \<open>0xd\<close> reads \<open>NOP\<close>.
\<close>

theorem to_s_push_is_nop:
  "to_s (as_Op (op_code PUSH)) = ''NOP'' \<and> to_s (as_Op (op_code PUSH)) \<noteq> op_name PUSH
   \<and> to_s (as_Op (op_code DUP)) = ''NOP''
   \<and> help_row 13 = ''0xd = NOP'' @ [CHR 0x0A]"
  by (simp add: as_Op_def help_row_def hex_digit_def)

end
